theory Spec2Isabelle
  imports Main "HOL-Library.Word"
begin

section \<open>JavaScript data\<close>

text \<open>
  A JavaScript string is modelled as a \<^typ>\<open>string\<close>, the list of its characters. The
  only character the functions below inspect is the ASCII single quote, and they never
  look at a position by index, so the result is the same whether the elements are read as
  UTF-16 code units or as the bytes of the UTF-8 encoding.

  A Node \<open>Buffer\<close> is a list of bytes.
\<close>

type_synonym byte = "8 word"

type_synonym Buffer = "byte list"

text \<open>Every failure of the source is \<open>throw new Error(message)\<close>.\<close>

datatype error = Error string

definition quote :: char where
  "quote = CHR 0x27"

section \<open>The abstract dialect: escaping\<close>

subsection \<open>\<open>escapeString\<close>\<close>

text \<open>
  \<open>value.replace(/'/g, '\'\'')\<close>: the global regular expression matches one character,
  so the scan goes through the string from left to right and puts the replacement text
  in the place of every match. The replacement text holds no \<open>$\<close>, so it is inserted
  as it is.
\<close>

fun replace_global_char :: "char \<Rightarrow> string \<Rightarrow> string \<Rightarrow> string" where
  "replace_global_char c replacement [] = []"
| "replace_global_char c replacement (x # xs) =
     (if x = c then replacement @ replace_global_char c replacement xs
      else x # replace_global_char c replacement xs)"

definition escapeString :: "string \<Rightarrow> string" where
  "escapeString v =
     (let v' = replace_global_char quote [quote, quote] v
      in [quote] @ v' @ [quote])"

text \<open>
  The claim's own words, for comparison: every character stays, except that a single
  quote becomes two.
\<close>

definition doubled_quotes :: "string \<Rightarrow> string" where
  "doubled_quotes s = concat (map (\<lambda>c. if c = quote then [quote, quote] else [c]) s)"

text \<open>
  Reading an escaped body back: a quote followed by a quote stands for one quote.
\<close>

fun undouble :: "string \<Rightarrow> string" where
  "undouble [] = []"
| "undouble [x] = [x]"
| "undouble (x # y # zs) =
     (if x = quote \<and> y = quote then quote # undouble zs else x # undouble (y # zs))"

subsection \<open>\<open>escapeBuffer\<close>\<close>

text \<open>
  \<open>buffer.toString('hex')\<close> of Node: every byte gives two digits, the high half first,
  taken from \<open>0123456789abcdef\<close>.
\<close>

definition hex_digit :: "nat \<Rightarrow> char" where
  "hex_digit n = ''0123456789abcdef'' ! n"

definition byte_toString_hex :: "byte \<Rightarrow> string" where
  "byte_toString_hex b = [hex_digit (unat b div 16), hex_digit (unat b mod 16)]"

definition Buffer_toString_hex :: "Buffer \<Rightarrow> string" where
  "Buffer_toString_hex buffer = concat (map byte_toString_hex buffer)"

definition escapeBuffer :: "Buffer \<Rightarrow> string" where
  "escapeBuffer buffer =
     (let hex = Buffer_toString_hex buffer
      in ''X'' @ [quote] @ hex @ [quote])"

text \<open>Reading lowercase hexadecimal back, to state that the encoding loses nothing.\<close>

definition hex_value :: "char \<Rightarrow> nat" where
  "hex_value c = (if of_char c < (97::nat) then of_char c - 48 else of_char c - 87)"

fun hex_decode :: "string \<Rightarrow> Buffer" where
  "hex_decode (h # l # rest) = word_of_nat (16 * hex_value h + hex_value l) # hex_decode rest"
| "hex_decode _ = []"

definition lower_hex_chars :: "char set" where
  "lower_hex_chars = set ''0123456789abcdef''"

section \<open>Values of unknown type\<close>

text \<open>
  A JavaScript number is an IEEE double. The functions below only ask whether a number
  is falsy, so a number is kept as its sign, significand and binary exponent, or as one
  of the special values; the two zeros are the finite numbers with significand 0.
\<close>

datatype js_number = NaN | Infinity bool | Finite bool nat int

fun is_zero :: "js_number \<Rightarrow> bool" where
  "is_zero (Finite _ m _) = (m = 0)"
| "is_zero _ = False"

text \<open>
  A value of type \<open>unknown\<close>. \<open>JObject\<close> stands for every object that is not a
  \<open>Buffer\<close> (arrays, functions, dates, boxed primitives, GeoJSON objects); \<open>'o\<close> is what
  tells such objects apart.
\<close>

datatype 'o js_value =
    JUndefined
  | JNull
  | JBoolean bool
  | JNumber js_number
  | JBigInt int
  | JString string
  | JSymbol string
  | JBuffer Buffer
  | JObject 'o

text \<open>The truthiness test behind \<open>!value\<close> and \<open>a && b\<close> (ECMAScript ToBoolean).\<close>

fun ToBoolean :: "'o js_value \<Rightarrow> bool" where
  "ToBoolean JUndefined = False"
| "ToBoolean JNull = False"
| "ToBoolean (JBoolean b) = b"
| "ToBoolean (JNumber n) = (n \<noteq> NaN \<and> \<not> is_zero n)"
| "ToBoolean (JBigInt i) = (i \<noteq> 0)"
| "ToBoolean (JString s) = (s \<noteq> [])"
| "ToBoolean (JSymbol _) = True"
| "ToBoolean (JBuffer _) = True"
| "ToBoolean (JObject _) = True"

text \<open>
  \<open>typeof value === 'string'\<close>. The helper \<open>isString\<close> of the utilities is not among
  the sources; the functions that call it take it as a parameter, and this test is what
  they are run with.
\<close>

fun typeof_string :: "'o js_value \<Rightarrow> bool" where
  "typeof_string (JString _) = True"
| "typeof_string _ = False"

fun Buffer_isBuffer :: "'o js_value \<Rightarrow> bool" where
  "Buffer_isBuffer (JBuffer _) = True"
| "Buffer_isBuffer _ = False"

text \<open>The \<open>length\<close> property of a string or a buffer; other values have none here.\<close>

fun js_length :: "'o js_value \<Rightarrow> nat option" where
  "js_length (JString s) = Some (length s)"
| "js_length (JBuffer b) = Some (length b)"
| "js_length _ = None"

text \<open>
  \<open>buffer.subarray(start)\<close>: the bytes from \<open>start\<close> on, and no byte at all when the
  buffer is shorter than \<open>start\<close>.
\<close>

fun Buffer_subarray :: "nat \<Rightarrow> 'o js_value \<Rightarrow> 'o js_value" where
  "Buffer_subarray start (JBuffer b) = JBuffer (drop start b)"
| "Buffer_subarray start v = v"

section \<open>The MySQL data types\<close>

subsection \<open>BOOLEAN\<close>

text \<open>
  \<open>NodeUtil.inspect\<close> belongs to Node, not to this program: it is the parameter
  \<open>inspect\<close>.
\<close>

definition BOOLEAN_toBindableValue :: "('o js_value \<Rightarrow> string) \<Rightarrow> 'o js_value \<Rightarrow> error + string" where
  "BOOLEAN_toBindableValue inspect v =
     (if v = JBoolean True then Inr ''1''
      else if v = JBoolean False then Inr ''0''
      else Inl (Error (''Unsupported value for BOOLEAN: '' @ inspect v)))"

subsection \<open>GEOMETRY\<close>

definition SUPPORTED_GEOMETRY_TYPES :: "string list" where
  "SUPPORTED_GEOMETRY_TYPES = [''POINT'', ''LINESTRING'', ''POLYGON'']"

text \<open>
  \<open>Array.prototype.join\<close> on an array of strings: the loop of the language definition,
  which puts the separator in front of every element but the first.
\<close>

fun join_from :: "string \<Rightarrow> string \<Rightarrow> nat \<Rightarrow> string list \<Rightarrow> string" where
  "join_from sep R k [] = R"
| "join_from sep R k (x # xs) = join_from sep ((if 0 < k then R @ sep else R) @ x) (Suc k) xs"

definition Array_join :: "string \<Rightarrow> string list \<Rightarrow> string" where
  "Array_join sep xs = join_from sep [] 0 xs"

record GeometryOptions =
  type :: "string option"
  srid :: "js_number option"

text \<open>
  Modelled from the spec: the constructor of the base class \<open>BaseTypes.GEOMETRY\<close>, which
  is not among the sources. The spec says that an instance carries its construction-time
  options, for a geometry the subtype and the SRID; an argument that was not given is
  \<open>undefined\<close>, here \<open>None\<close>.
\<close>

definition BaseTypes_GEOMETRY :: "string option \<Rightarrow> js_number option \<Rightarrow> GeometryOptions" where
  "BaseTypes_GEOMETRY ty sr = \<lparr>type = ty, srid = sr\<rparr>"

definition string_or_undefined :: "string option \<Rightarrow> unit js_value" where
  "string_or_undefined v = (case v of None \<Rightarrow> JUndefined | Some s \<Rightarrow> JString s)"

text \<open>\<open>array.includes(v)\<close>, for a \<open>v\<close> that is a string or \<open>undefined\<close>.\<close>

definition Array_includes :: "string list \<Rightarrow> string option \<Rightarrow> bool" where
  "Array_includes xs v = (case v of None \<Rightarrow> False | Some s \<Rightarrow> s \<in> set xs)"

definition GEOMETRY_constructor :: "string option \<Rightarrow> js_number option \<Rightarrow> error + GeometryOptions" where
  "GEOMETRY_constructor ty sr =
     (let options = BaseTypes_GEOMETRY ty sr
      in if ToBoolean (string_or_undefined (type options))
            \<and> \<not> Array_includes SUPPORTED_GEOMETRY_TYPES (type options)
         then Inl (Error (''Supported geometry types are: '' @ Array_join '', '' SUPPORTED_GEOMETRY_TYPES))
         else Inr options)"

definition GEOMETRY_toSql :: "GeometryOptions \<Rightarrow> string" where
  "GEOMETRY_toSql options =
     (case type options of
        None \<Rightarrow> ''GEOMETRY''
      | Some t \<Rightarrow> if ToBoolean (JString t :: unit js_value) then t else ''GEOMETRY'')"

text \<open>
  The library \<open>wkx\<close> is not part of this program. It is a parameter: \<open>Geometry_parse\<close>
  reads a string or a buffer and may throw, \<open>toGeoJSON\<close> turns the parsed geometry into a
  GeoJSON object under the options it is given.
\<close>

record GeoJSONOptions =
  shortCrs :: bool

record ('g, 'o) wkx =
  Geometry_parse :: "'o js_value \<Rightarrow> error + 'g"
  toGeoJSON :: "'g \<Rightarrow> GeoJSONOptions \<Rightarrow> error + 'o"

definition wkx_parse_toGeoJSON :: "('g, 'o) wkx \<Rightarrow> 'o js_value \<Rightarrow> error + 'o js_value" where
  "wkx_parse_toGeoJSON W v =
     (case Geometry_parse W v of
        Inl e \<Rightarrow> Inl e
      | Inr g \<Rightarrow> (case toGeoJSON W g \<lparr>shortCrs = True\<rparr> of
                   Inl e \<Rightarrow> Inl e
                 | Inr j \<Rightarrow> Inr (JObject j)))"

definition GEOMETRY_sanitize ::
  "('o js_value \<Rightarrow> bool) \<Rightarrow> ('g, 'o) wkx \<Rightarrow> 'o js_value \<Rightarrow> error + 'o js_value" where
  "GEOMETRY_sanitize isString W v =
     (if \<not> ToBoolean v then Inr JNull
      else if \<not> isString v \<and> \<not> Buffer_isBuffer v
      then Inl (Error ''Invalid value for GEOMETRY type. Expected string or buffer.'')
      else if js_length v = Some 0 then Inr v
      else let sanitizedValue = (if Buffer_isBuffer v then Buffer_subarray 4 v else v)
           in wkx_parse_toGeoJSON W sanitizedValue)"

text \<open>
  A stand-in for the library that hands back the bytes it was given to parse, so that the
  argument of the call can be read off the result.
\<close>

definition wkx_echo :: "(Buffer js_value, Buffer) wkx" where
  "wkx_echo = \<lparr>Geometry_parse = (\<lambda>v. Inr v),
               toGeoJSON = (\<lambda>g opts. case g of JBuffer b \<Rightarrow> Inr b | _ \<Rightarrow> Inl (Error ''not a buffer''))\<rparr>"

subsection \<open>ENUM\<close>

text \<open>
  \<open>options.dialect.escapeString\<close> is a method that a dialect may override, so the
  dialect that \<open>toSql\<close> receives carries it as a field.
\<close>

record ToSqlOptions =
  dialect_escapeString :: "string \<Rightarrow> string"

record ENUM_options =
  options_values :: "string list"

definition ENUM_toSql :: "ENUM_options \<Rightarrow> ToSqlOptions \<Rightarrow> string" where
  "ENUM_toSql this options =
     ''ENUM('' @ Array_join '', '' (map (\<lambda>v. dialect_escapeString options v) (options_values this)) @ '')''"

text \<open>The claim's own words: the literals in order, with \<open>, \<close> between neighbours.\<close>

fun separated :: "string \<Rightarrow> string list \<Rightarrow> string" where
  "separated sep [] = []"
| "separated sep [x] = x"
| "separated sep (x # y # ys) = x @ sep @ separated sep (y # ys)"

subsection \<open>DATE\<close>

text \<open>
  What \<open>dayjs\<close> keeps of a date once it is placed in a timezone: the fields of the local
  calendar date and time (\<open>month\<close> counts from 1, as it is printed).
\<close>

record dayjs =
  year :: int
  month :: nat
  day :: nat
  hour :: nat
  minute :: nat
  second :: nat
  millisecond :: nat

definition digit_char :: "nat \<Rightarrow> char" where
  "digit_char d = ''0123456789'' ! d"

function decimal :: "nat \<Rightarrow> string" where
  "decimal n = (if n < 10 then [digit_char n] else decimal (n div 10) @ [digit_char (n mod 10)])"
  by pat_completeness auto
termination
  by (relation "measure id") auto

declare decimal.simps [simp del]

text \<open>The text of an integer: a minus sign in front of the digits when it is negative.\<close>

definition String_int :: "int \<Rightarrow> string" where
  "String_int i = (if i < 0 then ''-'' @ decimal (nat (- i)) else decimal (nat i))"

definition padStart :: "nat \<Rightarrow> char \<Rightarrow> string \<Rightarrow> string" where
  "padStart n c s = replicate (n - length s) c @ s"

text \<open>
  Modelled from the spec: \<open>format\<close> of the library \<open>dayjs\<close>, which is not among the
  sources, for the one pattern that is passed to it. The spec gives the bind format of a
  date as \<open>YYYY-MM-DD HH:mm:ss.SSS\<close> with three-digit fractional seconds: every field in
  decimal, filled with zeros on the left to the width of its token.
\<close>

definition format_YYYY_MM_DD_HH_mm_ss_SSS :: "dayjs \<Rightarrow> string" where
  "format_YYYY_MM_DD_HH_mm_ss_SSS d =
     padStart 4 CHR ''0'' (String_int (year d)) @ ''-'' @
     padStart 2 CHR ''0'' (decimal (month d)) @ ''-'' @
     padStart 2 CHR ''0'' (decimal (day d)) @ '' '' @
     padStart 2 CHR ''0'' (decimal (hour d)) @ '':'' @
     padStart 2 CHR ''0'' (decimal (minute d)) @ '':'' @
     padStart 2 CHR ''0'' (decimal (second d)) @ ''.'' @
     padStart 3 CHR ''0'' (decimal (millisecond d))"

text \<open>
  \<open>_applyTimezone\<close> is a method of the base class \<open>BaseTypes.DATE\<close>, which is not among
  the sources: it is the parameter \<open>applyTimezone\<close>, from the accepted date and the
  options to the date placed in the timezone of the options.
\<close>

definition DATE_toBindableValue :: "('d \<Rightarrow> 'opts \<Rightarrow> dayjs) \<Rightarrow> 'd \<Rightarrow> 'opts \<Rightarrow> string" where
  "DATE_toBindableValue applyTimezone date options =
     (let date' = applyTimezone date options
      in format_YYYY_MM_DD_HH_mm_ss_SSS date')"

text \<open>
  A stand-in for \<open>_applyTimezone\<close> to run the method on: the timezone of the options is
  a number of hours east of the timezone the date is given in.
\<close>

definition shift_hours :: "dayjs \<Rightarrow> nat \<Rightarrow> dayjs" where
  "shift_hours d h = d\<lparr>hour := hour d + h\<rparr>"

text \<open>The fields of a date of the years 0 to 9999.\<close>

definition calendar_fields :: "dayjs \<Rightarrow> bool" where
  "calendar_fields d \<longleftrightarrow>
     0 \<le> year d \<and> year d \<le> 9999 \<and> 1 \<le> month d \<and> month d \<le> 12 \<and> 1 \<le> day d \<and> day d \<le> 31 \<and>
     hour d \<le> 23 \<and> minute d \<le> 59 \<and> second d \<le> 59 \<and> millisecond d \<le> 999"

text \<open>Reading a decimal field back.\<close>

definition digit_value :: "char \<Rightarrow> nat" where
  "digit_value c = of_char c - 48"

definition decimal_value :: "string \<Rightarrow> nat" where
  "decimal_value s = foldl (\<lambda>a c. 10 * a + digit_value c) 0 s"

definition decimal_digits :: "char set" where
  "decimal_digits = set ''0123456789''"

section \<open>The abstract dialect: data-type overrides\<close>

text \<open>
  A class is an object, and the override map compares its keys by reference. So a class
  is a reference of type \<open>'c\<close>, and the classes of the program are a table from
  references to what the getter reads of a class: its \<open>name\<close> and its static property
  \<open>kIsDataTypeOverrideOf\<close>, which is \<open>undefined\<close> (here \<open>None\<close>) or the base class.
\<close>

record 'c Class =
  class_name :: string
  kIsDataTypeOverrideOf :: "'c option"

text \<open>
  A \<open>Map\<close> keeps its entries in insertion order: \<open>set\<close> replaces the value of a key
  that is there, in place, and puts a new key at the end.
\<close>

type_synonym ('k, 'v) js_Map = "('k \<times> 'v) list"

definition Map_has :: "('k, 'v) js_Map \<Rightarrow> 'k \<Rightarrow> bool" where
  "Map_has m k = (k \<in> set (map fst m))"

fun Map_set :: "('k, 'v) js_Map \<Rightarrow> 'k \<Rightarrow> 'v \<Rightarrow> ('k, 'v) js_Map" where
  "Map_set [] k v = [(k, v)]"
| "Map_set (p # ps) k v = (if fst p = k then (k, v) # ps else p # Map_set ps k v)"

definition Map_get :: "('k, 'v) js_Map \<Rightarrow> 'k \<Rightarrow> 'v option" where
  "Map_get m k = map_of m k"

text \<open>
  The state of a dialect instance that the getter reads and writes. \<open>DataTypes\<close> is the
  record of the declared type classes, as its keys and values in enumeration order.
\<close>

record 'c AbstractDialect =
  name :: string
  DataTypes :: "(string \<times> 'c) list"
  dataTypeOverridesCache :: "('c, 'c) js_Map option"

definition Object_values :: "(string \<times> 'c) list \<Rightarrow> 'c list" where
  "Object_values r = map snd r"

definition missing_marker_message :: "string \<Rightarrow> string \<Rightarrow> string" where
  "missing_marker_message dialect_name type_name =
     ''Dialect '' @ dialect_name @ '' declares a DataType '' @ type_name @
     '', but does not specify which base DataType it is the dialect-specific implementation of.''"

definition conflict_message :: "string \<Rightarrow> string \<Rightarrow> string" where
  "conflict_message dialect_name base_name =
     ''Dialect '' @ dialect_name @ '' declares more than one implementation for DataType '' @
     base_name @ ''.''"

text \<open>The \<open>for\<close> loop of the getter, over the values not yet visited.\<close>

fun overrides_loop ::
  "('c \<Rightarrow> 'c Class) \<Rightarrow> string \<Rightarrow> 'c list \<Rightarrow> ('c, 'c) js_Map \<Rightarrow> error + ('c, 'c) js_Map" where
  "overrides_loop classes this_name [] overrides = Inr overrides"
| "overrides_loop classes this_name (dataType # rest) overrides =
     (case kIsDataTypeOverrideOf (classes dataType) of
        None \<Rightarrow> Inl (Error (missing_marker_message this_name (class_name (classes dataType))))
      | Some replacedDataType \<Rightarrow>
          if Map_has overrides replacedDataType
          then Inl (Error (conflict_message this_name (class_name (classes replacedDataType))))
          else overrides_loop classes this_name rest (Map_set overrides replacedDataType dataType))"

text \<open>
  The getter returns the map together with the instance as it leaves it; when it throws,
  the instance is as it was.
\<close>

definition dataTypeOverrides ::
  "('c \<Rightarrow> 'c Class) \<Rightarrow> 'c AbstractDialect \<Rightarrow> error + (('c, 'c) js_Map \<times> 'c AbstractDialect)" where
  "dataTypeOverrides classes this =
     (case dataTypeOverridesCache this of
        Some cached \<Rightarrow> Inr (cached, this)
      | None \<Rightarrow>
          (case overrides_loop classes (name this) (Object_values (DataTypes this)) [] of
             Inl e \<Rightarrow> Inl e
           | Inr overrides \<Rightarrow> Inr (overrides, this\<lparr>dataTypeOverridesCache := Some overrides\<rparr>)))"

text \<open>Reading the getter again and again: the results in order, and the instance at the end.\<close>

fun read_times ::
  "('c \<Rightarrow> 'c Class) \<Rightarrow> nat \<Rightarrow> 'c AbstractDialect \<Rightarrow> (error + ('c, 'c) js_Map) list \<times> 'c AbstractDialect" where
  "read_times classes 0 this = ([], this)"
| "read_times classes (Suc n) this =
     (case dataTypeOverrides classes this of
        Inl e \<Rightarrow> (let (rs, this') = read_times classes n this in (Inl e # rs, this'))
      | Inr (m, this1) \<Rightarrow> (let (rs, this') = read_times classes n this1 in (Inr m # rs, this')))"

text \<open>The marker of a declared type, as the loop reads it.\<close>

definition marker :: "('c \<Rightarrow> 'c Class) \<Rightarrow> 'c \<Rightarrow> 'c option" where
  "marker classes t = kIsDataTypeOverrideOf (classes t)"

text \<open>
  Declarations whose markers are all there and all different: no declaration lacks its
  marker, and no two carry the same one.
\<close>

definition well_declared :: "('c \<Rightarrow> 'c Class) \<Rightarrow> 'c list \<Rightarrow> bool" where
  "well_declared classes ts \<longleftrightarrow>
     None \<notin> set (map (marker classes) ts) \<and> distinct (map (marker classes) ts)"

text \<open>
  The entries that the loop puts into the map for a list of declarations, in order.
\<close>

definition declared_overrides :: "('c \<Rightarrow> 'c Class) \<Rightarrow> 'c list \<Rightarrow> ('c, 'c) js_Map" where
  "declared_overrides classes ts =
     concat (map (\<lambda>t. case marker classes t of None \<Rightarrow> [] | Some b \<Rightarrow> [(b, t)]) ts)"

text \<open>
  The private field \<open>#dataTypeOverridesCache\<close> is written by the getter only, so on every
  instance it is unset or holds what the loop computes from \<open>DataTypes\<close>.
\<close>

definition cache_valid :: "('c \<Rightarrow> 'c Class) \<Rightarrow> 'c AbstractDialect \<Rightarrow> bool" where
  "cache_valid classes this =
     (case dataTypeOverridesCache this of
        None \<Rightarrow> True
      | Some m \<Rightarrow> overrides_loop classes (name this) (Object_values (DataTypes this)) [] = Inr m)"

text \<open>
  Classes to run the getter on: two base types, \<open>BOOLEAN\<close> (reference 0) and \<open>DATE\<close>
  (reference 4), two types that both replace \<open>BOOLEAN\<close>, one that replaces \<open>DATE\<close>,
  and one without a marker; and a new dialect instance that declares a given record of
  types.
\<close>

definition example_classes :: "nat \<Rightarrow> nat Class" where
  "example_classes c =
     (if c = 1 then \<lparr>class_name = ''MYSQL_BOOLEAN'', kIsDataTypeOverrideOf = Some 0\<rparr>
      else if c = 2 then \<lparr>class_name = ''TINYINT_BOOLEAN'', kIsDataTypeOverrideOf = Some 0\<rparr>
      else if c = 3 then \<lparr>class_name = ''UNMARKED'', kIsDataTypeOverrideOf = None\<rparr>
      else if c = 5 then \<lparr>class_name = ''MYSQL_DATE'', kIsDataTypeOverrideOf = Some 4\<rparr>
      else if c = 4 then \<lparr>class_name = ''DATE'', kIsDataTypeOverrideOf = None\<rparr>
      else \<lparr>class_name = ''BOOLEAN'', kIsDataTypeOverrideOf = None\<rparr>)"

definition example_dialect :: "(string \<times> nat) list \<Rightarrow> nat AbstractDialect" where
  "example_dialect types = \<lparr>name = ''mysql'', DataTypes = types, dataTypeOverridesCache = None\<rparr>"

section \<open>Properties of the escaping functions\<close>

lemma doubled_quotes_Nil: "doubled_quotes [] = []"
  by (simp add: doubled_quotes_def)

lemma doubled_quotes_Cons:
  "doubled_quotes (c # s) = (if c = quote then [quote, quote] else [c]) @ doubled_quotes s"
  by (simp add: doubled_quotes_def)

lemma replace_global_char_doubled:
  "replace_global_char quote [quote, quote] s = doubled_quotes s"
  by (induction s) (simp_all add: doubled_quotes_Nil doubled_quotes_Cons)

lemma undouble_other: "c \<noteq> quote \<Longrightarrow> undouble (c # ys) = c # undouble ys"
  by (cases ys) simp_all

lemma undouble_doubled: "undouble (doubled_quotes s) = s"
  by (induction s) (simp_all add: doubled_quotes_Nil doubled_quotes_Cons undouble_other)

lemma filter_doubled:
  "filter (\<lambda>c. c \<noteq> quote) (doubled_quotes s) = filter (\<lambda>c. c \<noteq> quote) s"
  by (induction s) (simp_all add: doubled_quotes_Nil doubled_quotes_Cons)

lemma length_doubled: "length (doubled_quotes s) = length s + count_list s quote"
  by (induction s) (simp_all add: doubled_quotes_Nil doubled_quotes_Cons)

lemma escapeString_doubled: "escapeString s = [quote] @ doubled_quotes s @ [quote]"
  by (simp add: escapeString_def replace_global_char_doubled)

text \<open>
  C5. For every string, the default \<open>escapeString\<close> returns the string between two single
  quotes, with every single quote of it written twice. Nothing else changes: reading the
  doubled quotes back gives the input, the characters other than the quote are the
  input's in the same order, and the result is longer than the input by the number of
  its quotes and the two delimiters.
\<close>

theorem escapeString_doubles_and_wraps:
  "escapeString s = [quote] @ doubled_quotes s @ [quote]
   \<and> undouble (doubled_quotes s) = s
   \<and> filter (\<lambda>c. c \<noteq> quote) (doubled_quotes s) = filter (\<lambda>c. c \<noteq> quote) s
   \<and> length (escapeString s) = length s + count_list s quote + 2"
  by (simp add: escapeString_doubled undouble_doubled filter_doubled length_doubled)

lemma hex_value_digit: "n < 16 \<Longrightarrow> hex_value (hex_digit n) = n"
proof -
  assume "n < 16"
  then have "n \<in> set [0..<16]" by simp
  then show ?thesis
    unfolding upt_conv_Cons_Cons
    by (auto simp: hex_value_def hex_digit_def eval_nat_numeral)
qed

lemma hex_digit_lower: "n < 16 \<Longrightarrow> hex_digit n \<in> lower_hex_chars"
  by (simp add: hex_digit_def lower_hex_chars_def nth_mem del: set_simps)

lemma unat_byte_div: "unat (b::byte) div 16 < 16"
  using unsigned_less [of b, where 'a = nat] by simp

lemma hex_decode_encode: "hex_decode (Buffer_toString_hex b) = b"
  by (induction b)
    (simp_all add: Buffer_toString_hex_def byte_toString_hex_def hex_value_digit unat_byte_div)

lemma length_hex: "length (Buffer_toString_hex b) = 2 * length b"
  by (induction b) (simp_all add: Buffer_toString_hex_def byte_toString_hex_def)

lemma set_hex: "set (Buffer_toString_hex b) \<subseteq> lower_hex_chars"
  by (induction b)
    (simp_all add: Buffer_toString_hex_def byte_toString_hex_def hex_digit_lower unat_byte_div)

text \<open>
  C8. For every buffer, the default \<open>escapeBuffer\<close> returns \<open>X'h'\<close>, where \<open>h\<close> is the
  hexadecimal text of the bytes in order: two characters for every byte, all of them
  among \<open>0123456789abcdef\<close>, from which the bytes are read back as they were; \<open>h\<close> is
  empty for the empty buffer.
\<close>

theorem escapeBuffer_hex_literal:
  "escapeBuffer b = ''X'' @ [quote] @ Buffer_toString_hex b @ [quote]
   \<and> length (Buffer_toString_hex b) = 2 * length b
   \<and> set (Buffer_toString_hex b) \<subseteq> lower_hex_chars
   \<and> hex_decode (Buffer_toString_hex b) = b
   \<and> escapeBuffer [] = ''X'' @ [quote, quote]"
  by (simp add: escapeBuffer_def length_hex set_hex hex_decode_encode)
    (simp add: Buffer_toString_hex_def)

section \<open>Properties of the MySQL data types\<close>

lemma join_from_Suc: "join_from sep R (Suc k) xs = R @ concat (map (\<lambda>x. sep @ x) xs)"
  by (induction xs arbitrary: R k) simp_all

lemma separated_Cons: "separated sep (x # xs) = x @ concat (map (\<lambda>y. sep @ y) xs)"
  by (induction xs arbitrary: x) simp_all

lemma join_from_separated: "join_from sep [] 0 xs = separated sep xs"
proof (cases xs)
  case Nil
  then show ?thesis by simp
next
  case (Cons x ys)
  then show ?thesis by (simp add: join_from_Suc separated_Cons del: separated.simps)
qed

lemma Array_join_separated: "Array_join sep xs = separated sep xs"
  by (simp add: Array_join_def join_from_separated)

text \<open>
  C7. For every ENUM type and every dialect passed in the options, \<open>toSql\<close> returns
  \<open>ENUM(\<close>, the members in declared order, each one rendered by the \<open>escapeString\<close> of
  that dialect, with \<open>, \<close> between neighbours, and \<open>)\<close>. With the default
  \<open>escapeString\<close> of the abstract dialect every member stands between single quotes with
  its quotes doubled. The third part shows the text for three members.
\<close>

theorem ENUM_toSql_members_in_order:
  "ENUM_toSql this options =
     ''ENUM('' @ separated '', '' (map (dialect_escapeString options) (options_values this)) @ '')''
   \<and> ENUM_toSql this \<lparr>dialect_escapeString = escapeString\<rparr> =
     ''ENUM('' @ separated '', '' (map (\<lambda>m. [quote] @ doubled_quotes m @ [quote]) (options_values this)) @ '')''
   \<and> ENUM_toSql \<lparr>options_values = [m1, m2, m3]\<rparr> options =
     ''ENUM('' @ dialect_escapeString options m1 @ '', '' @ dialect_escapeString options m2 @ '', ''
       @ dialect_escapeString options m3 @ '')''"
  by (simp add: ENUM_toSql_def Array_join_separated escapeString_doubled)

text \<open>
  C3. \<open>toBindableValue\<close> of BOOLEAN maps \<open>true\<close> to the one-character string \<open>1\<close> and
  \<open>false\<close> to the one-character string \<open>0\<close>; for every other value it throws an error
  whose message ends with the rendering of that value by \<open>inspect\<close>.
\<close>

theorem BOOLEAN_toBindableValue_cases:
  "BOOLEAN_toBindableValue inspect (JBoolean True) = Inr ''1''
   \<and> BOOLEAN_toBindableValue inspect (JBoolean False) = Inr ''0''
   \<and> length ''1'' = 1 \<and> length ''0'' = 1
   \<and> (v \<noteq> JBoolean True \<and> v \<noteq> JBoolean False \<longrightarrow>
        BOOLEAN_toBindableValue inspect v =
          Inl (Error (''Unsupported value for BOOLEAN: '' @ inspect v)))"
  by (simp add: BOOLEAN_toBindableValue_def)

theorem BOOLEAN_toBindableValue_cases_witness:
  "(JString ''true'' :: unit js_value) \<noteq> JBoolean True
   \<and> (JString ''true'' :: unit js_value) \<noteq> JBoolean False
   \<and> BOOLEAN_toBindableValue (\<lambda>v. case v of JString s \<Rightarrow> [quote] @ s @ [quote] | _ \<Rightarrow> ''?'')
        (JString ''true'' :: unit js_value) =
        Inl (Error (''Unsupported value for BOOLEAN: '' @ [quote] @ ''true'' @ [quote]))"
  using BOOLEAN_toBindableValue_cases
    [of "\<lambda>v. case v of JString s \<Rightarrow> [quote] @ s @ [quote] | _ \<Rightarrow> ''?''" "JString ''true'' :: unit js_value"]
  by simp

text \<open>
  C10. \<open>sanitize\<close> of GEOMETRY returns \<open>null\<close> for every falsy value, among them
  \<open>null\<close>, \<open>undefined\<close>, \<open>false\<close>, the number zero and the empty string, which therefore
  does not pass through unchanged; for every truthy value that is neither a string nor a
  buffer it throws the error that a string or buffer was expected.
\<close>

theorem GEOMETRY_sanitize_falsy_or_wrong_type:
  "(\<not> ToBoolean v \<longrightarrow> GEOMETRY_sanitize isString W v = Inr JNull)
   \<and> GEOMETRY_sanitize isString W JNull = Inr JNull
   \<and> GEOMETRY_sanitize isString W JUndefined = Inr JNull
   \<and> GEOMETRY_sanitize isString W (JBoolean False) = Inr JNull
   \<and> GEOMETRY_sanitize isString W (JNumber (Finite sg 0 ex)) = Inr JNull
   \<and> GEOMETRY_sanitize isString W (JString []) = Inr JNull
   \<and> GEOMETRY_sanitize isString W (JString []) \<noteq> Inr (JString [])
   \<and> (ToBoolean v \<and> \<not> isString v \<and> \<not> Buffer_isBuffer v \<longrightarrow>
        GEOMETRY_sanitize isString W v =
          Inl (Error ''Invalid value for GEOMETRY type. Expected string or buffer.''))"
  by (simp add: GEOMETRY_sanitize_def)

theorem GEOMETRY_sanitize_falsy_or_wrong_type_witness:
  "\<not> ToBoolean (JBigInt 0 :: Buffer js_value)
   \<and> GEOMETRY_sanitize typeof_string wkx_echo (JBigInt 0) = Inr JNull
   \<and> ToBoolean (JBoolean True :: Buffer js_value)
   \<and> \<not> typeof_string (JBoolean True :: Buffer js_value)
   \<and> \<not> Buffer_isBuffer (JBoolean True :: Buffer js_value)
   \<and> GEOMETRY_sanitize typeof_string wkx_echo (JBoolean True) =
        Inl (Error ''Invalid value for GEOMETRY type. Expected string or buffer.'')"
  using GEOMETRY_sanitize_falsy_or_wrong_type [of "JBigInt 0" typeof_string wkx_echo]
    GEOMETRY_sanitize_falsy_or_wrong_type [of "JBoolean True" typeof_string wkx_echo]
  by simp

text \<open>
  C4, as stated, at a buffer of two bytes: the parser receives the empty buffer, so two
  bytes were removed and not four.
\<close>

theorem GEOMETRY_sanitize_short_buffer_counterexample:
  "GEOMETRY_sanitize typeof_string wkx_echo (JBuffer [1, 2]) = Inr (JObject [])
   \<and> length ([1, 2] :: Buffer) \<noteq> 4 + length ([] :: Buffer)"
  by (simp add: GEOMETRY_sanitize_def wkx_parse_toGeoJSON_def wkx_echo_def)

text \<open>
  C4, amended. \<open>sanitize\<close> of GEOMETRY returns the empty buffer unchanged. For every
  non-empty buffer it parses what \<open>subarray(4)\<close> leaves: the buffer without its first
  four bytes when it holds at least four, and the empty buffer when it holds fewer. What
  is parsed is then turned into GeoJSON with the option \<open>shortCrs\<close> set, and that object
  is the result.
\<close>

theorem GEOMETRY_sanitize_buffer:
  "GEOMETRY_sanitize isString W (JBuffer []) = Inr (JBuffer [])
   \<and> (b \<noteq> [] \<longrightarrow> GEOMETRY_sanitize isString W (JBuffer b) = wkx_parse_toGeoJSON W (JBuffer (drop 4 b)))
   \<and> (4 \<le> length b \<longrightarrow> b = take 4 b @ drop 4 b \<and> length (take 4 b) = 4)
   \<and> (length b < 4 \<longrightarrow> drop 4 b = [])
   \<and> (Geometry_parse W x = Inr g \<and> toGeoJSON W g \<lparr>shortCrs = True\<rparr> = Inr j \<longrightarrow>
        wkx_parse_toGeoJSON W x = Inr (JObject j))"
  by (simp add: GEOMETRY_sanitize_def wkx_parse_toGeoJSON_def)

theorem GEOMETRY_sanitize_buffer_witness:
  "([1, 2, 3, 4, 5] :: Buffer) \<noteq> [] \<and> 4 \<le> length ([1, 2, 3, 4, 5] :: Buffer)
   \<and> GEOMETRY_sanitize typeof_string wkx_echo (JBuffer [1, 2, 3, 4, 5]) = Inr (JObject [5])
   \<and> length ([1, 2] :: Buffer) < 4 \<and> drop 4 ([1, 2] :: Buffer) = []
   \<and> Geometry_parse wkx_echo (JBuffer [5]) = Inr (JBuffer [5])
   \<and> toGeoJSON wkx_echo (JBuffer [5]) \<lparr>shortCrs = True\<rparr> = Inr [5]"
  using GEOMETRY_sanitize_buffer [of typeof_string wkx_echo "[1, 2, 3, 4, 5]" "JBuffer [5]" "JBuffer [5]" "[5]"]
    GEOMETRY_sanitize_buffer [of typeof_string wkx_echo "[1, 2]" "JBuffer [5]" "JBuffer [5]" "[5]"]
  by (simp add: wkx_echo_def)

text \<open>
  C9, as stated, at the empty string: it is not one of the three supported subtypes, and
  the construction succeeds.
\<close>

theorem GEOMETRY_constructor_empty_subtype_counterexample:
  "[] \<notin> set SUPPORTED_GEOMETRY_TYPES
   \<and> GEOMETRY_constructor (Some []) None = Inr \<lparr>type = Some [], srid = None\<rparr>"
  by (simp add: GEOMETRY_constructor_def BaseTypes_GEOMETRY_def string_or_undefined_def
      SUPPORTED_GEOMETRY_TYPES_def)

lemma join_supported:
  "Array_join '', '' SUPPORTED_GEOMETRY_TYPES = ''POINT, LINESTRING, POLYGON''"
  by (simp add: Array_join_def SUPPORTED_GEOMETRY_TYPES_def)

text \<open>
  C9, amended. Constructing a GEOMETRY type with a non-empty subtype that is not one of
  POINT, LINESTRING and POLYGON fails in the constructor, with an error that names the
  three; with one of the three it succeeds and keeps the subtype. The constructor does not
  check an empty subtype, which renders as plain GEOMETRY. Whatever the constructor
  accepts renders as GEOMETRY or as one of the three supported subtypes.
\<close>

theorem GEOMETRY_constructor_validates_subtype:
  "(ty \<noteq> [] \<and> ty \<notin> set SUPPORTED_GEOMETRY_TYPES \<longrightarrow>
      GEOMETRY_constructor (Some ty) sr =
        Inl (Error ''Supported geometry types are: POINT, LINESTRING, POLYGON''))
   \<and> (ty \<in> set SUPPORTED_GEOMETRY_TYPES \<longrightarrow>
      GEOMETRY_constructor (Some ty) sr = Inr \<lparr>type = Some ty, srid = sr\<rparr>)
   \<and> GEOMETRY_constructor (Some []) sr = Inr \<lparr>type = Some [], srid = sr\<rparr>
   \<and> GEOMETRY_toSql \<lparr>type = Some [], srid = sr\<rparr> = ''GEOMETRY''
   \<and> (GEOMETRY_constructor t sr = Inr options \<longrightarrow>
      GEOMETRY_toSql options \<in> set (''GEOMETRY'' # SUPPORTED_GEOMETRY_TYPES))"
  apply (simp add: GEOMETRY_constructor_def BaseTypes_GEOMETRY_def string_or_undefined_def
      Array_includes_def join_supported GEOMETRY_toSql_def)
  apply (auto simp: SUPPORTED_GEOMETRY_TYPES_def split: option.splits if_splits)
  done

theorem GEOMETRY_constructor_validates_subtype_witness:
  "''MULTIPOINT'' \<noteq> [] \<and> ''MULTIPOINT'' \<notin> set SUPPORTED_GEOMETRY_TYPES
   \<and> GEOMETRY_constructor (Some ''MULTIPOINT'') None =
        Inl (Error ''Supported geometry types are: POINT, LINESTRING, POLYGON'')
   \<and> ''POLYGON'' \<in> set SUPPORTED_GEOMETRY_TYPES
   \<and> GEOMETRY_constructor (Some ''POLYGON'') None = Inr \<lparr>type = Some ''POLYGON'', srid = None\<rparr>
   \<and> GEOMETRY_toSql \<lparr>type = Some ''POLYGON'', srid = None\<rparr> \<in> set (''GEOMETRY'' # SUPPORTED_GEOMETRY_TYPES)"
  using GEOMETRY_constructor_validates_subtype [of "''MULTIPOINT''" None "Some ''POLYGON''" "\<lparr>type = Some ''POLYGON'', srid = None\<rparr>"]
    GEOMETRY_constructor_validates_subtype [of "''POLYGON''" None "Some ''POLYGON''" "\<lparr>type = Some ''POLYGON'', srid = None\<rparr>"]
  by (simp add: SUPPORTED_GEOMETRY_TYPES_def)

section \<open>Properties of the override map\<close>

lemma Map_set_new: "\<not> Map_has m k \<Longrightarrow> Map_set m k v = m @ [(k, v)]"
  by (induction m) (auto simp: Map_has_def)

lemma declared_overrides_Cons:
  "marker classes t = Some b \<Longrightarrow>
     declared_overrides classes (t # ts) = (b, t) # declared_overrides classes ts"
  by (simp add: declared_overrides_def)

lemma well_declared_Cons:
  "well_declared classes (t # ts) \<longleftrightarrow>
     (\<exists>b. marker classes t = Some b \<and> Some b \<notin> set (map (marker classes) ts))
     \<and> well_declared classes ts"
  by (cases "marker classes t") (auto simp: well_declared_def image_iff)

lemma overrides_loop_prefix:
  "well_declared classes pre \<Longrightarrow>
   \<forall>k \<in> set (map fst ov). Some k \<notin> set (map (marker classes) pre) \<Longrightarrow>
   overrides_loop classes n (pre @ rest) ov =
     overrides_loop classes n rest (ov @ declared_overrides classes pre)"
proof (induction pre arbitrary: ov)
  case Nil
  show ?case by (simp add: declared_overrides_def)
next
  case (Cons t pre)
  from Cons.prems(1) obtain b where b: "marker classes t = Some b"
    and fresh: "Some b \<notin> set (map (marker classes) pre)"
    and wd: "well_declared classes pre"
    by (auto simp: well_declared_Cons)
  from Cons.prems(2) b have nohas: "\<not> Map_has ov b"
    by (auto simp: Map_has_def)
  have disj: "\<forall>k \<in> set (map fst (ov @ [(b, t)])). Some k \<notin> set (map (marker classes) pre)"
    using Cons.prems(2) fresh by auto
  have "overrides_loop classes n ((t # pre) @ rest) ov =
          overrides_loop classes n (pre @ rest) (ov @ [(b, t)])"
    using b nohas by (simp add: marker_def Map_set_new)
  also have "\<dots> = overrides_loop classes n rest ((ov @ [(b, t)]) @ declared_overrides classes pre)"
    by (rule Cons.IH [OF wd disj])
  finally show ?case
    by (simp add: declared_overrides_Cons [OF b])
qed

lemma fst_declared_overrides:
  "None \<notin> set (map (marker classes) ts) \<Longrightarrow>
     map (Some \<circ> fst) (declared_overrides classes ts) = map (marker classes) ts"
  by (induction ts) (auto simp: declared_overrides_def split: option.splits)

lemma overrides_loop_well_declared:
  "well_declared classes ts \<Longrightarrow>
     overrides_loop classes n ts [] = Inr (declared_overrides classes ts)"
  using overrides_loop_prefix [of classes ts "[]" n "[]"] by simp

lemma overrides_loop_missing:
  assumes "well_declared classes pre" and "marker classes t = None"
  shows "overrides_loop classes n (pre @ t # rest) [] =
           Inl (Error (missing_marker_message n (class_name (classes t))))"
  using overrides_loop_prefix [of classes pre "[]" n "t # rest"] assms
  by (simp add: marker_def)

lemma Map_has_declared:
  "None \<notin> set (map (marker classes) ts) \<Longrightarrow>
     Map_has (declared_overrides classes ts) b \<longleftrightarrow> Some b \<in> set (map (marker classes) ts)"
proof -
  assume a: "None \<notin> set (map (marker classes) ts)"
  have "Map_has (declared_overrides classes ts) b \<longleftrightarrow>
          Some b \<in> set (map (Some \<circ> fst) (declared_overrides classes ts))"
    by (auto simp: Map_has_def)
  then show ?thesis by (simp only: fst_declared_overrides [OF a])
qed

lemma overrides_loop_conflict:
  assumes "well_declared classes pre" and "marker classes t = Some b"
    and "Some b \<in> set (map (marker classes) pre)"
  shows "overrides_loop classes n (pre @ t # rest) [] =
           Inl (Error (conflict_message n (class_name (classes b))))"
proof -
  from assms(1) have "None \<notin> set (map (marker classes) pre)"
    by (simp add: well_declared_def)
  then have "Map_has (declared_overrides classes pre) b"
    using assms(3) by (simp add: Map_has_declared)
  then show ?thesis
    using overrides_loop_prefix [of classes pre "[]" n "t # rest"] assms(1,2)
    by (simp add: marker_def)
qed

text \<open>Every list of declarations is well declared or has a first offending declaration.\<close>

lemma first_offender:
  "well_declared classes ts \<or>
   (\<exists>pre t rest. ts = pre @ t # rest \<and> well_declared classes pre \<and>
      (marker classes t = None \<or> marker classes t \<in> set (map (marker classes) pre)))"
proof (induction ts rule: rev_induct)
  case Nil
  show ?case by (simp add: well_declared_def)
next
  case (snoc x xs)
  from snoc.IH show ?case
  proof
    assume wd: "well_declared classes xs"
    show ?thesis
    proof (cases "marker classes x = None \<or> marker classes x \<in> set (map (marker classes) xs)")
      case True
      with wd have "xs @ [x] = xs @ x # [] \<and> well_declared classes xs \<and>
        (marker classes x = None \<or> marker classes x \<in> set (map (marker classes) xs))" by simp
      then show ?thesis by blast
    next
      case False
      with wd have "well_declared classes (xs @ [x])"
        by (auto simp: well_declared_def)
      then show ?thesis by simp
    qed
  next
    assume "\<exists>pre t rest. xs = pre @ t # rest \<and> well_declared classes pre \<and>
      (marker classes t = None \<or> marker classes t \<in> set (map (marker classes) pre))"
    then obtain pre t rest where "xs = pre @ t # rest" "well_declared classes pre"
      "marker classes t = None \<or> marker classes t \<in> set (map (marker classes) pre)" by blast
    then have "xs @ [x] = pre @ t # (rest @ [x]) \<and> well_declared classes pre \<and>
      (marker classes t = None \<or> marker classes t \<in> set (map (marker classes) pre))" by simp
    then show ?thesis by blast
  qed
qed

lemma overrides_loop_fails_iff:
  "isl (overrides_loop classes n ts []) \<longleftrightarrow> \<not> well_declared classes ts"
proof
  assume "isl (overrides_loop classes n ts [])"
  then show "\<not> well_declared classes ts"
    by (auto simp: overrides_loop_well_declared)
next
  assume "\<not> well_declared classes ts"
  with first_offender [of classes ts] obtain pre t rest where
    ts: "ts = pre @ t # rest" and wd: "well_declared classes pre"
    and bad: "marker classes t = None \<or> marker classes t \<in> set (map (marker classes) pre)"
    by blast
  show "isl (overrides_loop classes n ts [])"
  proof (cases "marker classes t")
    case None
    then show ?thesis by (simp add: ts overrides_loop_missing [OF wd])
  next
    case (Some b)
    with bad have "Some b \<in> set (map (marker classes) pre)" by simp
    then show ?thesis by (simp add: ts overrides_loop_conflict [OF wd Some])
  qed
qed

lemma Map_get_declared:
  "well_declared classes ts \<Longrightarrow>
     Map_get (declared_overrides classes ts) b = Some t \<longleftrightarrow>
       t \<in> set ts \<and> marker classes t = Some b"
proof (induction ts)
  case Nil
  show ?case by (simp add: declared_overrides_def Map_get_def)
next
  case (Cons x xs)
  then obtain bx where bx: "marker classes x = Some bx"
    and fresh: "Some bx \<notin> set (map (marker classes) xs)" and wd: "well_declared classes xs"
    by (auto simp: well_declared_Cons)
  from Cons.IH [OF wd] have IH: "map_of (declared_overrides classes xs) b = Some t \<longleftrightarrow>
       t \<in> set xs \<and> marker classes t = Some b" by (simp add: Map_get_def)
  show ?case
    using bx fresh IH by (auto simp: Map_get_def declared_overrides_Cons [OF bx] image_iff)
qed


lemma dataTypeOverrides_by_loop:
  assumes "cache_valid classes this"
  shows "dataTypeOverrides classes this =
     (case overrides_loop classes (name this) (Object_values (DataTypes this)) [] of
        Inl e \<Rightarrow> Inl e
      | Inr ov \<Rightarrow> Inr (ov, this\<lparr>dataTypeOverridesCache := Some ov\<rparr>))"
proof (cases "dataTypeOverridesCache this")
  case None
  then show ?thesis by (simp add: dataTypeOverrides_def)
next
  case (Some m)
  with assms have "overrides_loop classes (name this) (Object_values (DataTypes this)) [] = Inr m"
    by (simp add: cache_valid_def)
  moreover from Some have "this\<lparr>dataTypeOverridesCache := Some m\<rparr> = this"
    by simp
  ultimately show ?thesis using Some by (simp add: dataTypeOverrides_def)
qed

lemma cache_valid_invariant:
  assumes "cache_valid classes this" and "dataTypeOverrides classes this = Inr (m, this')"
  shows "cache_valid classes this'"
  using assms
  by (auto simp: dataTypeOverrides_def cache_valid_def split: option.splits sum.splits)

text \<open>
  C1, amended. The getter fails exactly when some declared type has no marker or two
  declared types have the same marker, and the error is that of the first offending
  declaration in enumeration order: when the declarations before it are well declared and
  it has no marker, the error names the dialect and that type; when it carries the marker
  of an earlier declaration, the error names the dialect and the base type claimed twice.
  When no declaration offends, the getter returns the map that sends every marked base
  type to the one declared type that replaces it, and nothing else.
\<close>

theorem dataTypeOverrides_first_offender:
  assumes "cache_valid classes this" and "Object_values (DataTypes this) = ts"
  shows "(isl (dataTypeOverrides classes this) \<longleftrightarrow>
            None \<in> set (map (marker classes) ts) \<or> \<not> distinct (map (marker classes) ts))
   \<and> (ts = pre @ t # rest \<and> well_declared classes pre \<and> marker classes t = None \<longrightarrow>
        dataTypeOverrides classes this =
          Inl (Error (missing_marker_message (name this) (class_name (classes t)))))
   \<and> (ts = pre' @ t' # rest' \<and> well_declared classes pre' \<and> marker classes t' = Some b
        \<and> Some b \<in> set (map (marker classes) pre') \<longrightarrow>
        dataTypeOverrides classes this =
          Inl (Error (conflict_message (name this) (class_name (classes b)))))
   \<and> (well_declared classes ts \<longrightarrow>
        dataTypeOverrides classes this =
          Inr (declared_overrides classes ts,
               this\<lparr>dataTypeOverridesCache := Some (declared_overrides classes ts)\<rparr>)
        \<and> (\<forall>base u. Map_get (declared_overrides classes ts) base = Some u \<longleftrightarrow>
              u \<in> set ts \<and> marker classes u = Some base))"
proof -
  note loop = dataTypeOverrides_by_loop [OF assms(1), unfolded assms(2)]
  have fails: "isl (dataTypeOverrides classes this) \<longleftrightarrow>
      None \<in> set (map (marker classes) ts) \<or> \<not> distinct (map (marker classes) ts)"
  proof -
    have "isl (dataTypeOverrides classes this) \<longleftrightarrow> isl (overrides_loop classes (name this) ts [])"
      by (simp add: loop split: sum.splits)
    then show ?thesis
      by (simp add: overrides_loop_fails_iff well_declared_def)
  qed
  have missing: "dataTypeOverrides classes this =
      Inl (Error (missing_marker_message (name this) (class_name (classes t))))"
    if "ts = pre @ t # rest" "well_declared classes pre" "marker classes t = None"
    using that by (simp add: loop overrides_loop_missing)
  have conflict: "dataTypeOverrides classes this =
      Inl (Error (conflict_message (name this) (class_name (classes b))))"
    if "ts = pre' @ t' # rest'" "well_declared classes pre'" "marker classes t' = Some b"
      "Some b \<in> set (map (marker classes) pre')"
    using that by (simp add: loop overrides_loop_conflict)
  have ok: "dataTypeOverrides classes this =
      Inr (declared_overrides classes ts,
           this\<lparr>dataTypeOverridesCache := Some (declared_overrides classes ts)\<rparr>)"
    if "well_declared classes ts"
    using that by (simp add: loop overrides_loop_well_declared)
  have lookup: "\<forall>base u. Map_get (declared_overrides classes ts) base = Some u \<longleftrightarrow>
      u \<in> set ts \<and> marker classes u = Some base"
    if "well_declared classes ts"
    using Map_get_declared [OF that] by simp
  show ?thesis
  proof (intro conjI impI)
    show "isl (dataTypeOverrides classes this) \<longleftrightarrow>
      None \<in> set (map (marker classes) ts) \<or> \<not> distinct (map (marker classes) ts)"
      by (rule fails)
  next
    assume "ts = pre @ t # rest \<and> well_declared classes pre \<and> marker classes t = None"
    then show "dataTypeOverrides classes this =
      Inl (Error (missing_marker_message (name this) (class_name (classes t))))"
      using missing by simp
  next
    assume "ts = pre' @ t' # rest' \<and> well_declared classes pre' \<and> marker classes t' = Some b
        \<and> Some b \<in> set (map (marker classes) pre')"
    then show "dataTypeOverrides classes this =
      Inl (Error (conflict_message (name this) (class_name (classes b))))"
      using conflict by simp
  next
    assume "well_declared classes ts"
    then show "dataTypeOverrides classes this =
      Inr (declared_overrides classes ts,
           this\<lparr>dataTypeOverridesCache := Some (declared_overrides classes ts)\<rparr>)"
      by (rule ok)
  next
    assume "well_declared classes ts"
    then show "\<forall>base u. Map_get (declared_overrides classes ts) base = Some u \<longleftrightarrow>
      u \<in> set ts \<and> marker classes u = Some base"
      by (rule lookup)
  qed
qed

text \<open>
  C1, as stated, at a dialect that declares two replacements of \<open>BOOLEAN\<close> and then a
  type without a marker: a declared type has no marker, and the error is not the one that
  names this type but the one about the second replacement of \<open>BOOLEAN\<close>.
\<close>

theorem dataTypeOverrides_both_violations_counterexample:
  "marker example_classes 3 = None
   \<and> 3 \<in> set (Object_values (DataTypes (example_dialect [(''A'', 1), (''B'', 2), (''C'', 3)])))
   \<and> dataTypeOverrides example_classes (example_dialect [(''A'', 1), (''B'', 2), (''C'', 3)]) =
        Inl (Error ''Dialect mysql declares more than one implementation for DataType BOOLEAN.'')
   \<and> dataTypeOverrides example_classes (example_dialect [(''A'', 1), (''B'', 2), (''C'', 3)]) \<noteq>
        Inl (Error (missing_marker_message ''mysql'' (class_name (example_classes 3))))"
  by (simp add: dataTypeOverrides_def example_dialect_def example_classes_def Object_values_def
      marker_def Map_has_def conflict_message_def missing_marker_message_def)

theorem dataTypeOverrides_first_offender_witness:
  "cache_valid example_classes (example_dialect [(''A'', 1), (''C'', 3), (''D'', 5)])
   \<and> well_declared example_classes [1] \<and> marker example_classes 3 = None
   \<and> dataTypeOverrides example_classes (example_dialect [(''A'', 1), (''C'', 3), (''D'', 5)]) =
        Inl (Error (''Dialect mysql declares a DataType UNMARKED, but does not specify '' @
                    ''which base DataType it is the dialect-specific implementation of.''))
   \<and> cache_valid example_classes (example_dialect [(''A'', 1), (''D'', 5), (''B'', 2)])
   \<and> well_declared example_classes [1, 5] \<and> marker example_classes 2 = Some 0
   \<and> Some 0 \<in> set (map (marker example_classes) [1, 5])
   \<and> dataTypeOverrides example_classes (example_dialect [(''A'', 1), (''D'', 5), (''B'', 2)]) =
        Inl (Error ''Dialect mysql declares more than one implementation for DataType BOOLEAN.'')
   \<and> cache_valid example_classes (example_dialect [(''A'', 1), (''D'', 5)])
   \<and> well_declared example_classes [1, 5]
   \<and> dataTypeOverrides example_classes (example_dialect [(''A'', 1), (''D'', 5)]) =
        Inr ([(0, 1), (4, 5)],
             \<lparr>name = ''mysql'', DataTypes = [(''A'', 1), (''D'', 5)],
              dataTypeOverridesCache = Some [(0, 1), (4, 5)]\<rparr>)"
  using dataTypeOverrides_first_offender
      [where classes = example_classes and ts = "[1, 3, 5]"
         and this = "example_dialect [(''A'', 1), (''C'', 3), (''D'', 5)]"
         and pre = "[1]" and t = 3 and rest = "[5]"
         and pre' = "[1]" and t' = 3 and rest' = "[5]" and b = 0]
    dataTypeOverrides_first_offender
      [where classes = example_classes and ts = "[1, 5, 2]"
         and this = "example_dialect [(''A'', 1), (''D'', 5), (''B'', 2)]"
         and pre = "[1, 5]" and t = 2 and rest = "[]"
         and pre' = "[1, 5]" and t' = 2 and rest' = "[]" and b = 0]
    dataTypeOverrides_first_offender
      [where classes = example_classes and ts = "[1, 5]"
         and this = "example_dialect [(''A'', 1), (''D'', 5)]"
         and pre = "[1]" and t = 3 and rest = "[5]"
         and pre' = "[1]" and t' = 3 and rest' = "[5]" and b = 0]
  by (simp add: cache_valid_def example_dialect_def example_classes_def Object_values_def
      marker_def well_declared_def declared_overrides_def conflict_message_def
      missing_marker_message_def)

lemma dataTypeOverrides_cached:
  "dataTypeOverridesCache this = Some m \<Longrightarrow> dataTypeOverrides classes this = Inr (m, this)"
  by (simp add: dataTypeOverrides_def)

lemma dataTypeOverrides_sets_cache:
  "dataTypeOverrides classes this = Inr (m, this') \<Longrightarrow> dataTypeOverridesCache this' = Some m"
  by (auto simp: dataTypeOverrides_def split: option.splits sum.splits)

lemma read_times_cached:
  "dataTypeOverridesCache this = Some m \<Longrightarrow>
     read_times classes n this = (replicate n (Inr m), this)"
  by (induction n) (simp_all add: dataTypeOverrides_cached)

text \<open>
  C2. When a read of the getter succeeds, the map it returns is the one kept in the cache
  of the instance, and nothing else of the instance has changed. Every later read
  returns this map and leaves the instance as it is; it does so whatever the classes and
  the declared types are by then, so it computes nothing again. Any number of later reads
  gives the same map every time.
\<close>

theorem dataTypeOverrides_memoized:
  assumes "dataTypeOverrides classes this = Inr (m, this')"
  shows "dataTypeOverridesCache this' = Some m
   \<and> name this' = name this \<and> DataTypes this' = DataTypes this
   \<and> dataTypeOverrides classes this' = Inr (m, this')
   \<and> dataTypeOverrides classes' (this'\<lparr>DataTypes := types\<rparr>) = Inr (m, this'\<lparr>DataTypes := types\<rparr>)
   \<and> read_times classes n this' = (replicate n (Inr m), this')"
proof -
  from assms have c: "dataTypeOverridesCache this' = Some m"
    by (rule dataTypeOverrides_sets_cache)
  from assms have "name this' = name this \<and> DataTypes this' = DataTypes this"
    by (auto simp: dataTypeOverrides_def split: option.splits sum.splits)
  with c show ?thesis
    by (simp add: dataTypeOverrides_cached read_times_cached)
qed

theorem dataTypeOverrides_memoized_witness:
  "dataTypeOverrides example_classes (example_dialect [(''A'', 1), (''D'', 5)]) =
     Inr ([(0, 1), (4, 5)],
          \<lparr>name = ''mysql'', DataTypes = [(''A'', 1), (''D'', 5)],
           dataTypeOverridesCache = Some [(0, 1), (4, 5)]\<rparr>)
   \<and> dataTypeOverrides example_classes
        \<lparr>name = ''mysql'', DataTypes = [(''A'', 1), (''D'', 5)],
         dataTypeOverridesCache = Some [(0, 1), (4, 5)]\<rparr> =
     Inr ([(0, 1), (4, 5)],
          \<lparr>name = ''mysql'', DataTypes = [(''A'', 1), (''D'', 5)],
           dataTypeOverridesCache = Some [(0, 1), (4, 5)]\<rparr>)
   \<and> read_times example_classes 3
        \<lparr>name = ''mysql'', DataTypes = [(''A'', 1), (''D'', 5)],
         dataTypeOverridesCache = Some [(0, 1), (4, 5)]\<rparr> =
     ([Inr [(0, 1), (4, 5)], Inr [(0, 1), (4, 5)], Inr [(0, 1), (4, 5)]],
      \<lparr>name = ''mysql'', DataTypes = [(''A'', 1), (''D'', 5)],
       dataTypeOverridesCache = Some [(0, 1), (4, 5)]\<rparr>)"
proof -
  have first: "dataTypeOverrides example_classes (example_dialect [(''A'', 1), (''D'', 5)]) =
     Inr ([(0, 1), (4, 5)],
          \<lparr>name = ''mysql'', DataTypes = [(''A'', 1), (''D'', 5)],
           dataTypeOverridesCache = Some [(0, 1), (4, 5)]\<rparr>)"
    by (simp add: dataTypeOverrides_def example_dialect_def example_classes_def Object_values_def
        Map_has_def)
  have three: "replicate 3 r = [r, r, r]" for r :: "error + (nat, nat) js_Map"
    by (simp add: numeral_3_eq_3)
  show ?thesis
    using first dataTypeOverrides_memoized [OF first, of example_classes "[(''A'', 1), (''D'', 5)]" 3]
    by (simp add: example_dialect_def three)
qed

section \<open>Properties of the date format\<close>

lemma digit_value_char: "d < 10 \<Longrightarrow> digit_value (digit_char d) = d"
proof -
  assume "d < 10"
  then have "d \<in> set [0..<10]" by simp
  then show ?thesis
    unfolding upt_conv_Cons_Cons
    by (auto simp: digit_value_def digit_char_def eval_nat_numeral)
qed

lemma digit_char_digit: "d < 10 \<Longrightarrow> digit_char d \<in> decimal_digits"
  by (simp add: digit_char_def decimal_digits_def nth_mem del: set_simps)

lemma decimal_value_snoc: "decimal_value (s @ [c]) = 10 * decimal_value s + digit_value c"
  by (simp add: decimal_value_def)

lemma decimal_value_decimal: "decimal_value (decimal n) = n"
proof (induction n rule: decimal.induct)
  case (1 n)
  show ?case
  proof (cases "n < 10")
    case True
    then show ?thesis
      by (subst decimal.simps) (simp add: decimal_value_def digit_value_char)
  next
    case False
    with 1 have "decimal_value (decimal (n div 10)) = n div 10" by simp
    with False show ?thesis
      by (subst decimal.simps) (simp add: decimal_value_snoc digit_value_char)
  qed
qed

lemma set_decimal: "set (decimal n) \<subseteq> decimal_digits"
proof (induction n rule: decimal.induct)
  case (1 n)
  show ?case
  proof (cases "n < 10")
    case True
    then show ?thesis
      by (subst decimal.simps) (simp add: digit_char_digit)
  next
    case False
    with 1 have "set (decimal (n div 10)) \<subseteq> decimal_digits" by simp
    with False show ?thesis
      by (subst decimal.simps) (simp add: digit_char_digit)
  qed
qed

lemma length_decimal: "n < 10 ^ k \<Longrightarrow> 0 < k \<Longrightarrow> length (decimal n) \<le> k"
proof (induction n arbitrary: k rule: decimal.induct)
  case (1 n)
  show ?case
  proof (cases "n < 10")
    case True
    with 1(3) show ?thesis
      by (subst decimal.simps) simp
  next
    case False
    from 1(3) obtain j where k: "k = Suc j" by (cases k) auto
    with False 1(2) have j: "0 < j" by (cases j) auto
    from 1(2) k have d: "n div 10 < 10 ^ j"
      by (simp add: less_mult_imp_div_less mult.commute)
    have "length (decimal (n div 10)) \<le> j"
      by (rule 1(1) [OF False d j])
    with False k show ?thesis
      by (subst decimal.simps) simp
  qed
qed

lemma decimal_value_zeros: "decimal_value (replicate j CHR ''0'' @ s) = decimal_value s"
proof -
  have "foldl (\<lambda>a c. 10 * a + digit_value c) 0 (replicate j CHR ''0'') = 0"
    by (induction j) (simp_all add: digit_value_def)
  then show ?thesis by (simp add: decimal_value_def)
qed

lemma padded_field:
  assumes "n < 10 ^ k" and "0 < k"
  shows "length (padStart k CHR ''0'' (decimal n)) = k"
    and "decimal_value (padStart k CHR ''0'' (decimal n)) = n"
    and "set (padStart k CHR ''0'' (decimal n)) \<subseteq> decimal_digits"
proof -
  from length_decimal [OF assms] show "length (padStart k CHR ''0'' (decimal n)) = k"
    by (simp add: padStart_def)
  show "decimal_value (padStart k CHR ''0'' (decimal n)) = n"
    by (simp add: padStart_def decimal_value_zeros decimal_value_decimal)
  have "CHR ''0'' \<in> decimal_digits" by (simp add: decimal_digits_def)
  with set_decimal [of n] show "set (padStart k CHR ''0'' (decimal n)) \<subseteq> decimal_digits"
    by (auto simp: padStart_def)
qed

lemma layout:
  fixes Y :: string
  assumes "length Y = 4" "length Mo = 2" "length D = 2" "length H = 2" "length Mi = 2"
    "length S = 2" "length F = 3"
  defines "r \<equiv> Y @ ''-'' @ Mo @ ''-'' @ D @ '' '' @ H @ '':'' @ Mi @ '':'' @ S @ ''.'' @ F"
  shows "length r = 23" 
    "r ! 4 = CHR ''-''" "r ! 7 = CHR ''-''" "r ! 10 = CHR '' ''" "r ! 13 = CHR '':''" "r ! 16 = CHR '':''" "r ! 19 = CHR ''.''"
    "take 4 r = Y" "take 2 (drop 5 r) = Mo" "take 2 (drop 8 r) = D" "take 2 (drop 11 r) = H"
    "take 2 (drop 14 r) = Mi" "take 2 (drop 17 r) = S" "drop 20 r = F"
  using assms by (simp_all add: nth_append)


lemma fraction_at_end:
  fixes P :: string
  assumes "length F = 3"
  defines "r \<equiv> P @ ''.'' @ F"
  shows "4 \<le> length r" "r ! (length r - 4) = CHR ''.''" "drop (length r - 3) r = F"
  using assms by (simp_all add: nth_append)

text \<open>
  C6. \<open>toBindableValue\<close> of DATE formats the date that \<open>_applyTimezone\<close> returns for
  the given date and options, that is the date placed in the timezone of the options. The
  text ends with a point and exactly three decimal digits, which are the milliseconds.
  For a date of the years 0 to 9999 the text has the 23 characters of the pattern
  \<open>YYYY-MM-DD HH:mm:ss.SSS\<close>: year, month, day, hour, minute and second in decimal at
  their places, between the separators of the pattern.
\<close>

theorem DATE_toBindableValue_pattern:
  fixes applyTimezone :: "'d \<Rightarrow> 'opts \<Rightarrow> dayjs" and date :: 'd and options :: 'opts
  defines "d \<equiv> applyTimezone date options"
    and "r \<equiv> DATE_toBindableValue applyTimezone date options"
  shows "r = format_YYYY_MM_DD_HH_mm_ss_SSS d
   \<and> (millisecond d \<le> 999 \<longrightarrow>
        4 \<le> length r \<and> r ! (length r - 4) = CHR ''.''
        \<and> length (drop (length r - 3) r) = 3
        \<and> set (drop (length r - 3) r) \<subseteq> decimal_digits
        \<and> decimal_value (drop (length r - 3) r) = millisecond d)
   \<and> (calendar_fields d \<longrightarrow>
        length r = 23
        \<and> r ! 4 = CHR ''-'' \<and> r ! 7 = CHR ''-'' \<and> r ! 10 = CHR '' ''
        \<and> r ! 13 = CHR '':'' \<and> r ! 16 = CHR '':'' \<and> r ! 19 = CHR ''.''
        \<and> int (decimal_value (take 4 r)) = year d \<and> set (take 4 r) \<subseteq> decimal_digits
        \<and> decimal_value (take 2 (drop 5 r)) = month d \<and> set (take 2 (drop 5 r)) \<subseteq> decimal_digits
        \<and> decimal_value (take 2 (drop 8 r)) = day d \<and> set (take 2 (drop 8 r)) \<subseteq> decimal_digits
        \<and> decimal_value (take 2 (drop 11 r)) = hour d \<and> set (take 2 (drop 11 r)) \<subseteq> decimal_digits
        \<and> decimal_value (take 2 (drop 14 r)) = minute d \<and> set (take 2 (drop 14 r)) \<subseteq> decimal_digits
        \<and> decimal_value (take 2 (drop 17 r)) = second d \<and> set (take 2 (drop 17 r)) \<subseteq> decimal_digits
        \<and> decimal_value (drop 20 r) = millisecond d \<and> set (drop 20 r) \<subseteq> decimal_digits)"
  (is "?formatted \<and> (?ms \<longrightarrow> ?fraction) \<and> (?cal \<longrightarrow> ?shape)")
proof -
  have r: "r = padStart 4 CHR ''0'' (String_int (year d)) @ ''-'' @
     padStart 2 CHR ''0'' (decimal (month d)) @ ''-'' @
     padStart 2 CHR ''0'' (decimal (day d)) @ '' '' @
     padStart 2 CHR ''0'' (decimal (hour d)) @ '':'' @
     padStart 2 CHR ''0'' (decimal (minute d)) @ '':'' @
     padStart 2 CHR ''0'' (decimal (second d)) @ ''.'' @
     padStart 3 CHR ''0'' (decimal (millisecond d))"
    by (simp add: r_def d_def DATE_toBindableValue_def format_YYYY_MM_DD_HH_mm_ss_SSS_def Let_def)
  have p4: "(0::nat) < 4" and p2: "(0::nat) < 2" and p3: "(0::nat) < 3" by simp_all
  have formatted: ?formatted
    by (simp add: r_def d_def DATE_toBindableValue_def)
  have fraction: ?fraction if ms: ?ms
  proof -
    from ms have f: "millisecond d < 10 ^ 3" by simp
    note F = padded_field [OF f p3]
    have r': "r = (padStart 4 CHR ''0'' (String_int (year d)) @ ''-'' @
       padStart 2 CHR ''0'' (decimal (month d)) @ ''-'' @
       padStart 2 CHR ''0'' (decimal (day d)) @ '' '' @
       padStart 2 CHR ''0'' (decimal (hour d)) @ '':'' @
       padStart 2 CHR ''0'' (decimal (minute d)) @ '':'' @
       padStart 2 CHR ''0'' (decimal (second d))) @ ''.'' @
       padStart 3 CHR ''0'' (decimal (millisecond d))"
      by (simp add: r)
    have E: "4 \<le> length r" "r ! (length r - 4) = CHR ''.''"
      "drop (length r - 3) r = padStart 3 CHR ''0'' (decimal (millisecond d))"
      unfolding r' by (rule fraction_at_end [OF F(1)])+
    show ?thesis
      by (simp only: E F simp_thms)
  qed
  have shape: ?shape if cal: ?cal
  proof -
    from cal have
      y: "nat (year d) < 10 ^ 4" and y0: "0 \<le> year d" and mo: "month d < 10 ^ 2"
      and dd: "day d < 10 ^ 2" and h: "hour d < 10 ^ 2" and mi: "minute d < 10 ^ 2"
      and s: "second d < 10 ^ 2" and f: "millisecond d < 10 ^ 3"
      by (auto simp: calendar_fields_def)
    from y0 have ys: "String_int (year d) = decimal (nat (year d))"
      by (simp add: String_int_def)
    note Y = padded_field [OF y p4, folded ys] and Mo = padded_field [OF mo p2]
      and D = padded_field [OF dd p2] and H = padded_field [OF h p2]
      and Mi = padded_field [OF mi p2] and S = padded_field [OF s p2]
      and F = padded_field [OF f p3]
    note L = layout [OF Y(1) Mo(1) D(1) H(1) Mi(1) S(1) F(1), folded r]
    from y0 have yy: "int (nat (year d)) = year d" by simp
    show ?thesis
      by (simp only: L Y Mo D H Mi S F yy simp_thms)
  qed
  from formatted fraction shape show ?thesis
    by blast
qed

theorem DATE_toBindableValue_pattern_witness:
  "millisecond (shift_hours
      \<lparr>year = 2022, month = 1, day = 9, hour = 0, minute = 5, second = 59, millisecond = 7\<rparr> 5) \<le> 999
   \<and> calendar_fields (shift_hours
      \<lparr>year = 2022, month = 1, day = 9, hour = 0, minute = 5, second = 59, millisecond = 7\<rparr> 5)
   \<and> length (DATE_toBindableValue shift_hours
      \<lparr>year = 2022, month = 1, day = 9, hour = 0, minute = 5, second = 59, millisecond = 7\<rparr> 5) = 23
   \<and> decimal_value (take 2 (drop 11 (DATE_toBindableValue shift_hours
      \<lparr>year = 2022, month = 1, day = 9, hour = 0, minute = 5, second = 59, millisecond = 7\<rparr> 5))) = 5
   \<and> decimal_value (drop 20 (DATE_toBindableValue shift_hours
      \<lparr>year = 2022, month = 1, day = 9, hour = 0, minute = 5, second = 59, millisecond = 7\<rparr> 5)) = 7"
proof -
  have c: "calendar_fields (shift_hours
      \<lparr>year = 2022, month = 1, day = 9, hour = 0, minute = 5, second = 59, millisecond = 7\<rparr> 5)"
    by (simp add: calendar_fields_def shift_hours_def)
  show ?thesis
    using c DATE_toBindableValue_pattern
      [of shift_hours "\<lparr>year = 2022, month = 1, day = 9, hour = 0, minute = 5, second = 59,
         millisecond = 7\<rparr>" 5, THEN conjunct2]
    by (simp add: shift_hours_def)
qed

end
